theory Spec2Isabelle
  imports Complex_Main "HOL-Library.Stream"
begin

section \<open>The resolution engine of packages/core/src/index.ts (class Abby)\<close>

text \<open>
  The class \<^verbatim>\<open>Abby\<close> is embedded as a record of its fields and one function per
  method. A method takes the instance and returns the instance as the call leaves it,
  together with the returned value or the error thrown: a JavaScript exception unwinds
  the call but keeps every mutation made before it, so the instance is returned in
  both cases.

  Conventions of the embedding.
  \<^item> A plain object used as a dictionary (\<^verbatim>\<open>#data.tests\<close>, \<^verbatim>\<open>#data.flags\<close>) is an
    association list in insertion order, which is the order of \<^verbatim>\<open>Object.entries\<close>
    and \<^verbatim>\<open>Object.keys\<close>; \<open>assign\<close> is the property assignment \<^verbatim>\<open>o[k] = v\<close>.
    Names are taken to be ordinary property names: not integer-like (those are
    enumerated first by JavaScript) and not members of \<^verbatim>\<open>Object.prototype\<close>.
  \<^item> A \<^verbatim>\<open>Map\<close> (\<^verbatim>\<open>flagOverrides\<close>, \<^verbatim>\<open>testOverrides\<close>) is a map \<open>string \<rightharpoonup> 'v\<close>.
  \<^item> \<^verbatim>\<open>null\<close> and \<^verbatim>\<open>undefined\<close> are \<open>None\<close>; every test of the source against them
    is \<^verbatim>\<open>!= null\<close>, \<^verbatim>\<open>??\<close> or \<^verbatim>\<open>?.\<close>, which do not tell the two apart.
  \<^item> The constructor stores \<^verbatim>\<open>config.tests\<close> itself in \<^verbatim>\<open>#data.tests\<close>, and
    \<^verbatim>\<open>responseToLocalData\<close> and \<^verbatim>\<open>getProjectData\<close> use that same object as the
    accumulator of their \<^verbatim>\<open>reduce\<close>. There is therefore one tests object per instance,
    the field \<open>tests\<close> of \<open>data\<close>; a missing \<^verbatim>\<open>config.tests\<close> is the empty object.
    In the same way \<^verbatim>\<open>getProjectData\<close> reduces into \<^verbatim>\<open>#data.flags\<close> itself.
  \<^item> An injected \<^verbatim>\<open>PersistentStorage\<close> is a key-value map: \<^verbatim>\<open>get\<close> returns what the
    last \<^verbatim>\<open>set\<close> on that key stored, and nothing else writes to it.
  \<^item> Numbers (weights, random draws) are rationals.
  \<^item> A listener is named by a number and only records what it is called with, in
    \<open>delivered\<close>; it does not call back into the instance.
  \<^item> What the environment supplies is explicit: \<^verbatim>\<open>process.env.NODE_ENV\<close> and
    \<^verbatim>\<open>document.cookie\<close> are the record \<open>Env\<close> handed to each call, and the results of
    successive \<^verbatim>\<open>Math.random()\<close> calls are the stream \<open>Math_random\<close>.
\<close>

subsection \<open>Data\<close>

datatype error = TypeError | InvalidWeightsError

record ABTest =
  variants :: "string list"
  weights :: "rat list option"
  selectedVariant :: "string option"

record LocalData =
  tests :: "(string \<times> ABTest) list"
  flags :: "(string \<times> bool option) list"

text \<open>\<^verbatim>\<open>AbbyDataResponse\<close>, as the mock handler builds it: \<^verbatim>\<open>{name, weights}\<close> and
  \<^verbatim>\<open>{name, isEnabled}\<close> entries, here pairs.\<close>

record AbbyDataResponse =
  response_tests :: "(string \<times> rat list) list"
  response_flags :: "(string \<times> bool) list"

text \<open>\<^verbatim>\<open>config.settings?.flags\<close>; an absent \<^verbatim>\<open>settings\<close> or \<^verbatim>\<open>flags\<close> is the record
  with every field absent.\<close>

record FlagSettings =
  devDefault :: "bool option"
  flagDefault :: "bool option"
  devOverrides :: "string \<rightharpoonup> bool"

record AbbyConfig =
  projectId :: string
  config_flags :: "string list option"
  settings_flags :: FlagSettings

record Env =
  NODE_ENV :: "string option"
  document_cookie :: "string option"

record Abby =
  config :: AbbyConfig
  data :: LocalData
  listeners :: "nat list"
  flagOverrides :: "string \<rightharpoonup> bool"
  testOverrides :: "string \<rightharpoonup> string"
  persistantTestStorage :: "(string \<rightharpoonup> string) option"
  persistantFlagStorage :: "(string \<rightharpoonup> string) option"
  Math_random :: "rat stream"
  delivered :: "(nat \<times> LocalData) list"

definition development :: "Env \<Rightarrow> bool" where
  "development env \<longleftrightarrow> NODE_ENV env = Some ''development''"

text \<open>\<^verbatim>\<open>o[k] = v\<close> on a plain object: an existing property keeps its place, a new one
  goes last.\<close>

fun assign :: "string \<Rightarrow> 'v \<Rightarrow> (string \<times> 'v) list \<Rightarrow> (string \<times> 'v) list" where
  "assign k v [] = [(k, v)]"
| "assign k v ((k', v') # kvs) = (if k' = k then (k, v) # kvs else (k', v') # assign k v kvs)"

text \<open>\<^verbatim>\<open>storage?.set(key, value)\<close> on an optional storage.\<close>

definition storage_set :: "string \<Rightarrow> string \<Rightarrow> (string \<rightharpoonup> string) option \<Rightarrow> (string \<rightharpoonup> string) option" where
  "storage_set k v s = (case s of None \<Rightarrow> None | Some m \<Rightarrow> Some (m(k \<mapsto> v)))"

text \<open>\<^verbatim>\<open>storage?.get(key)\<close> on an optional storage.\<close>

definition storage_get :: "string \<Rightarrow> (string \<rightharpoonup> string) option \<Rightarrow> string option" where
  "storage_get k s = (case s of None \<Rightarrow> None | Some m \<Rightarrow> m k)"

subsection \<open>The constructor\<close>

text \<open>\<^verbatim>\<open>(config.flags ?? []).reduce((acc, flag) => { acc[flag] = null; ... }, {})\<close>\<close>

definition initial_flags :: "string list option \<Rightarrow> (string \<times> bool option) list" where
  "initial_flags fs = foldl (\<lambda>acc flag. assign flag None acc) [] (case fs of None \<Rightarrow> [] | Some l \<Rightarrow> l)"

text \<open>\<^verbatim>\<open>new Abby(config, persistantTestStorage, persistantFlagStorage)\<close>; \<open>ts\<close> is
  \<^verbatim>\<open>config.tests ?? {}\<close> and \<open>rnd\<close> the random numbers to come.\<close>

definition new_Abby ::
  "AbbyConfig \<Rightarrow> (string \<times> ABTest) list \<Rightarrow> (string \<rightharpoonup> string) option \<Rightarrow>
   (string \<rightharpoonup> string) option \<Rightarrow> rat stream \<Rightarrow> Abby" where
  "new_Abby cfg ts testStorage flagStorage rnd =
     \<lparr>config = cfg,
      data = \<lparr>tests = ts, flags = initial_flags (config_flags cfg)\<rparr>,
      listeners = [],
      flagOverrides = Map.empty,
      testOverrides = Map.empty,
      persistantTestStorage = testStorage,
      persistantFlagStorage = flagStorage,
      Math_random = rnd,
      delivered = []\<rparr>"

subsection \<open>Weighted selection\<close>

text \<open>Modelled from the spec: \<^verbatim>\<open>getWeightedRandomVariant\<close> of \<^verbatim>\<open>./mathHelpers\<close>, which is
  not among the sources. Section 4.4: the weights default to 1 each; the prefix sums of
  the weights are compared with one draw from \<open>[0, totalWeight)\<close> and the first variant
  whose cumulative weight strictly exceeds the draw is selected; a total weight of 0, or
  (section 7) a weight list whose length differs from the variants', fails with
  \<^verbatim>\<open>InvalidWeightsError\<close>. The draw is \<^verbatim>\<open>Math.random()\<close>, a number of \<open>[0, 1)\<close>, scaled by
  the total. Where no cumulative weight exceeds the draw, which no draw of the
  interval and no list of non-negative weights allows, the weights are reported
  invalid as well.\<close>

fun pickVariant :: "string list \<Rightarrow> rat list \<Rightarrow> rat \<Rightarrow> rat \<Rightarrow> string option" where
  "pickVariant (v # vs) (w # ws) cumulative draw =
     (if cumulative + w > draw then Some v else pickVariant vs ws (cumulative + w) draw)"
| "pickVariant _ _ _ _ = None"

definition validWeights :: "string list \<Rightarrow> rat list option \<Rightarrow> rat list" where
  "validWeights vs ws = (case ws of None \<Rightarrow> replicate (length vs) 1 | Some l \<Rightarrow> l)"

definition getWeightedRandomVariant ::
  "string list \<Rightarrow> rat list option \<Rightarrow> rat stream \<Rightarrow> (error + string) \<times> rat stream" where
  "getWeightedRandomVariant vs ws rnd =
     (if length (validWeights vs ws) \<noteq> length vs \<or> sum_list (validWeights vs ws) = 0
      then (Inl InvalidWeightsError, rnd)
      else (case pickVariant vs (validWeights vs ws) 0 (shd rnd * sum_list (validWeights vs ws)) of
              None \<Rightarrow> (Inl InvalidWeightsError, stl rnd)
            | Some v \<Rightarrow> (Inr v, stl rnd)))"

subsection \<open>Resolution of one flag and of one test\<close>

text \<open>\<^verbatim>\<open>getFeatureFlag(key)\<close>. The method has no \<^verbatim>\<open>throw\<close> and changes nothing; its result
  is given in the same sum type as the other methods'.\<close>

definition getFeatureFlag :: "Env \<Rightarrow> string \<Rightarrow> Abby \<Rightarrow> error + bool" where
  "getFeatureFlag env key st =
     (let storedValue = (case map_of (flags (data st)) key of None \<Rightarrow> None | Some v \<Rightarrow> v);
          localOverride = flagOverrides st key;
          fs = settings_flags (config st)
      in case localOverride of
           Some b \<Rightarrow> Inr b
         | None \<Rightarrow>
             (case (if development env
                    then (case devOverrides fs key of Some b \<Rightarrow> Some b | None \<Rightarrow> devDefault fs)
                    else None) of
                Some b \<Rightarrow> Inr b
              | None \<Rightarrow>
                  (case storedValue of
                     Some b \<Rightarrow> Inr b
                   | None \<Rightarrow> Inr (case flagDefault fs of None \<Rightarrow> False | Some b \<Rightarrow> b))))"

text \<open>\<^verbatim>\<open>getTestVariant(key)\<close>. Destructuring \<^verbatim>\<open>#data.tests[key]\<close> throws a \<^verbatim>\<open>TypeError\<close>
  when the test does not exist.\<close>

definition getTestVariant :: "Env \<Rightarrow> string \<Rightarrow> Abby \<Rightarrow> (error + string) \<times> Abby" where
  "getTestVariant env key st =
     (case map_of (tests (data st)) key of
        None \<Rightarrow> (Inl TypeError, st)
      | Some t \<Rightarrow>
          (case (if development env then testOverrides st key else None) of
             Some override \<Rightarrow> (Inr override, st)
           | None \<Rightarrow>
               (case storage_get key (persistantTestStorage st) of
                  Some persistedValue \<Rightarrow> (Inr persistedValue, st)
                | None \<Rightarrow>
                    (case getWeightedRandomVariant (variants t) (weights t) (Math_random st) of
                       (Inl e, rnd) \<Rightarrow> (Inl e, st\<lparr>Math_random := rnd\<rparr>)
                     | (Inr weightedVariant, rnd) \<Rightarrow>
                         (Inr weightedVariant,
                          st\<lparr>Math_random := rnd,
                             persistantTestStorage :=
                               storage_set key weightedVariant (persistantTestStorage st)\<rparr>)))))"

subsection \<open>Merging a remote snapshot\<close>

text \<open>\<^verbatim>\<open>responseToLocalData(data)\<close>. The tests are reduced into the instance's tests
  object, the flags into a fresh object.\<close>

definition merge_test :: "(string \<times> ABTest) list \<Rightarrow> string \<times> rat list \<Rightarrow> (string \<times> ABTest) list" where
  "merge_test acc nw =
     (case map_of acc (fst nw) of
        None \<Rightarrow> acc
      | Some t \<Rightarrow> assign (fst nw) (t\<lparr>weights := Some (snd nw)\<rparr>) acc)"

definition merge_flag :: "(string \<times> bool option) list \<Rightarrow> string \<times> bool \<Rightarrow> (string \<times> bool option) list" where
  "merge_flag acc ne = assign (fst ne) (Some (snd ne)) acc"

definition responseToLocalData :: "AbbyDataResponse \<Rightarrow> Abby \<Rightarrow> LocalData" where
  "responseToLocalData d st =
     \<lparr>tests = foldl merge_test (tests (data st)) (response_tests d),
      flags = foldl merge_flag [] (response_flags d)\<rparr>"

subsection \<open>The resolved state\<close>

text \<open>\<^verbatim>\<open>getProjectData()\<close>. Both reductions run over the entries the object has when the
  reduction starts and write into \<^verbatim>\<open>#data.tests\<close> and \<^verbatim>\<open>#data.flags\<close> themselves.\<close>

fun resolve_tests :: "Env \<Rightarrow> (string \<times> ABTest) list \<Rightarrow> Abby \<Rightarrow> (error + unit) \<times> Abby" where
  "resolve_tests env [] st = (Inr (), st)"
| "resolve_tests env ((testName, test) # entries) st =
     (case getTestVariant env testName st of
        (Inl e, st') \<Rightarrow> (Inl e, st')
      | (Inr v, st') \<Rightarrow>
          resolve_tests env entries
            (st'\<lparr>data := (data st')\<lparr>tests :=
               assign testName (test\<lparr>selectedVariant := Some v\<rparr>) (tests (data st'))\<rparr>\<rparr>))"

fun resolve_flags :: "Env \<Rightarrow> string list \<Rightarrow> Abby \<Rightarrow> (error + unit) \<times> Abby" where
  "resolve_flags env [] st = (Inr (), st)"
| "resolve_flags env (flagName # keys) st =
     (case getFeatureFlag env flagName st of
        Inl e \<Rightarrow> (Inl e, st)
      | Inr b \<Rightarrow>
          resolve_flags env keys
            (st\<lparr>data := (data st)\<lparr>flags := assign flagName (Some b) (flags (data st))\<rparr>\<rparr>))"

definition getProjectData :: "Env \<Rightarrow> Abby \<Rightarrow> (error + LocalData) \<times> Abby" where
  "getProjectData env st =
     (case resolve_tests env (tests (data st)) st of
        (Inl e, st1) \<Rightarrow> (Inl e, st1)
      | (Inr _, st1) \<Rightarrow>
          (case resolve_flags env (map fst (flags (data st1))) st1 of
             (Inl e, st2) \<Rightarrow> (Inl e, st2)
           | (Inr _, st2) \<Rightarrow> (Inr (data st2), st2)))"

subsection \<open>Listeners\<close>

text \<open>\<^verbatim>\<open>subscribe(listener)\<close> adds to a \<^verbatim>\<open>Set\<close>; the closure it returns deletes from it.\<close>

definition subscribe :: "nat \<Rightarrow> Abby \<Rightarrow> Abby" where
  "subscribe listener st =
     st\<lparr>listeners := (if listener \<in> set (listeners st) then listeners st
                       else listeners st @ [listener])\<rparr>"

definition unsubscribe :: "nat \<Rightarrow> Abby \<Rightarrow> Abby" where
  "unsubscribe listener st = st\<lparr>listeners := removeAll listener (listeners st)\<rparr>"

text \<open>\<^verbatim>\<open>this.listeners.forEach((listener) => listener(this.getProjectData()))\<close>\<close>

fun notify_each :: "Env \<Rightarrow> nat list \<Rightarrow> Abby \<Rightarrow> (error + unit) \<times> Abby" where
  "notify_each env [] st = (Inr (), st)"
| "notify_each env (listener # ls) st =
     (case getProjectData env st of
        (Inl e, st') \<Rightarrow> (Inl e, st')
      | (Inr d, st') \<Rightarrow> notify_each env ls (st'\<lparr>delivered := delivered st' @ [(listener, d)]\<rparr>))"

definition notifyListeners :: "Env \<Rightarrow> Abby \<Rightarrow> (error + unit) \<times> Abby" where
  "notifyListeners env st = notify_each env (listeners st) st"

subsection \<open>Overrides\<close>

text \<open>\<^verbatim>\<open>updateLocalVariant(key, override)\<close>\<close>

definition updateLocalVariant :: "Env \<Rightarrow> string \<Rightarrow> string \<Rightarrow> Abby \<Rightarrow> (error + unit) \<times> Abby" where
  "updateLocalVariant env key override st =
     notifyListeners env
       (st\<lparr>testOverrides := (testOverrides st)(key \<mapsto> override),
           persistantTestStorage := storage_set key override (persistantTestStorage st)\<rparr>)"

text \<open>\<^verbatim>\<open>updateFlag(name, value)\<close>; \<^verbatim>\<open>value.toString()\<close> is \<^verbatim>\<open>"true"\<close> or \<^verbatim>\<open>"false"\<close>.\<close>

definition updateFlag :: "Env \<Rightarrow> string \<Rightarrow> bool \<Rightarrow> Abby \<Rightarrow> (error + unit) \<times> Abby" where
  "updateFlag env name val st =
     (let st1 = st\<lparr>flagOverrides := (flagOverrides st)(name \<mapsto> val)\<rparr>;
          st2 = (if development env
                 then st1\<lparr>persistantFlagStorage :=
                        storage_set name (if val then ''true'' else ''false'') (persistantFlagStorage st1)\<rparr>
                 else st1)
      in notifyListeners env st2)"

subsection \<open>Overrides from cookies\<close>

text \<open>Modelled from the spec: the constants \<^verbatim>\<open>ABBY_AB_STORAGE_PREFIX\<close> and
  \<^verbatim>\<open>ABBY_FF_STORAGE_PREFIX\<close> of the package \<^verbatim>\<open>shared\<close>, which is not among the sources.
  Section 8 names the cookies \<^verbatim>\<open>abby-ab-proj1_test\<close> and \<^verbatim>\<open>abby-ff-proj1_flag1\<close> for the
  project \<^verbatim>\<open>proj1\<close>.\<close>

definition ABBY_AB_STORAGE_PREFIX :: string where
  "ABBY_AB_STORAGE_PREFIX = ''abby-ab-''"

definition ABBY_FF_STORAGE_PREFIX :: string where
  "ABBY_FF_STORAGE_PREFIX = ''abby-ff-''"

text \<open>Modelled from the spec: \<^verbatim>\<open>parseCookies\<close> of \<^verbatim>\<open>./helpers\<close>, which is not among the
  sources. Section 4.5: the string is a list of \<^verbatim>\<open>key=value\<close> pairs separated by
  semicolons, each with optional surrounding whitespace; an entry that is not of that
  form is skipped; the result maps names to values.\<close>

fun split_at :: "char \<Rightarrow> string \<Rightarrow> string list" where
  "split_at sep [] = [[]]"
| "split_at sep (c # cs) =
     (if c = sep then [] # split_at sep cs
      else (case split_at sep cs of [] \<Rightarrow> [[c]] | p # ps \<Rightarrow> (c # p) # ps))"

definition whitespace :: "char \<Rightarrow> bool" where
  "whitespace c \<longleftrightarrow> c = CHR '' '' \<or> c = CHR 0x09"

definition trim :: "string \<Rightarrow> string" where
  "trim s = rev (dropWhile whitespace (rev (dropWhile whitespace s)))"

definition parse_entry :: "(string \<times> string) list \<Rightarrow> string \<Rightarrow> (string \<times> string) list" where
  "parse_entry acc entry =
     (let e = trim entry in
      if CHR ''='' \<in> set e
      then assign (trim (takeWhile (\<lambda>c. c \<noteq> CHR ''='') e))
                  (trim (drop 1 (dropWhile (\<lambda>c. c \<noteq> CHR ''='') e))) acc
      else acc)"

definition parseCookies :: "string \<Rightarrow> (string \<times> string) list" where
  "parseCookies cookies = foldl parse_entry [] (split_at CHR '';'' cookies)"

text \<open>\<^verbatim>\<open>s.startsWith(p)\<close> and \<^verbatim>\<open>s.replace(p, "")\<close> with a string pattern, which removes
  the first occurrence of \<open>p\<close> wherever it is.\<close>

definition startsWith :: "string \<Rightarrow> string \<Rightarrow> bool" where
  "startsWith s p \<longleftrightarrow> take (length p) s = p"

fun remove_first :: "string \<Rightarrow> string \<Rightarrow> string" where
  "remove_first p [] = []"
| "remove_first p (c # cs) =
     (if startsWith (c # cs) p then drop (length p) (c # cs) else c # remove_first p cs)"

text \<open>\<^verbatim>\<open>setLocalOverrides(cookies)\<close>: the body of the \<^verbatim>\<open>forEach\<close>, then the method.\<close>

definition local_override :: "Abby \<Rightarrow> string \<times> string \<Rightarrow> Abby" where
  "local_override st c =
     (let cookieName = fst c; cookieValue = snd c;
          st1 = (if startsWith cookieName ABBY_AB_STORAGE_PREFIX
                 then st\<lparr>testOverrides := (testOverrides st)
                        (remove_first (ABBY_AB_STORAGE_PREFIX @ projectId (config st) @ ''_'') cookieName
                           \<mapsto> cookieValue)\<rparr>
                 else st)
      in if startsWith cookieName ABBY_FF_STORAGE_PREFIX
         then st1\<lparr>flagOverrides := (flagOverrides st1)
                (remove_first (ABBY_FF_STORAGE_PREFIX @ projectId (config st1) @ ''_'') cookieName
                   \<mapsto> (cookieValue = ''true''))\<rparr>
         else st1)"

definition setLocalOverrides :: "string \<Rightarrow> Abby \<Rightarrow> Abby" where
  "setLocalOverrides cookies st = foldl local_override st (parseCookies cookies)"

subsection \<open>Initialisation\<close>

text \<open>\<^verbatim>\<open>init(data)\<close>. \<^verbatim>\<open>document.cookie\<close> is read when \<^verbatim>\<open>window\<close> and \<^verbatim>\<open>document\<close> exist.\<close>

definition init :: "Env \<Rightarrow> AbbyDataResponse \<Rightarrow> Abby \<Rightarrow> (error + LocalData) \<times> Abby" where
  "init env d st =
     (case notifyListeners env (st\<lparr>data := responseToLocalData d st\<rparr>) of
        (Inl e, st1) \<Rightarrow> (Inl e, st1)
      | (Inr _, st1) \<Rightarrow>
          getProjectData env
            (case document_cookie env of None \<Rightarrow> st1 | Some c \<Rightarrow> setLocalOverrides c st1))"

text \<open>\<^verbatim>\<open>loadProjectData()\<close>, with the value that \<^verbatim>\<open>HttpService.getProjectData\<close> resolves to
  as the argument \<open>fetched\<close>.\<close>

definition loadProjectData :: "Env \<Rightarrow> AbbyDataResponse option \<Rightarrow> Abby \<Rightarrow> (error + unit) \<times> Abby" where
  "loadProjectData env fetched st =
     (case fetched of
        None \<Rightarrow> (Inr (), st)
      | Some d \<Rightarrow> (case init env d st of (Inl e, st') \<Rightarrow> (Inl e, st') | (Inr _, st') \<Rightarrow> (Inr (), st')))"

subsection \<open>Sequences of calls\<close>

text \<open>A call of a public method with its arguments and the environment it runs in;
  \<open>exec\<close> is the instance after the call, whether it returned or threw.\<close>

datatype call =
    Init Env AbbyDataResponse
  | LoadProjectData Env "AbbyDataResponse option"
  | GetProjectData Env
  | GetFeatureFlag Env string
  | GetTestVariant Env string
  | UpdateLocalVariant Env string string
  | UpdateFlag Env string bool
  | Subscribe nat
  | Unsubscribe nat
  | SetLocalOverrides string

fun exec :: "call \<Rightarrow> Abby \<Rightarrow> Abby" where
  "exec (Init env d) st = snd (init env d st)"
| "exec (LoadProjectData env fetched) st = snd (loadProjectData env fetched st)"
| "exec (GetProjectData env) st = snd (getProjectData env st)"
| "exec (GetFeatureFlag env key) st = st"
| "exec (GetTestVariant env key) st = snd (getTestVariant env key st)"
| "exec (UpdateLocalVariant env key override) st = snd (updateLocalVariant env key override st)"
| "exec (UpdateFlag env name val) st = snd (updateFlag env name val st)"
| "exec (Subscribe listener) st = subscribe listener st"
| "exec (Unsubscribe listener) st = unsubscribe listener st"
| "exec (SetLocalOverrides cookies) st = setLocalOverrides cookies st"

definition run :: "call list \<Rightarrow> Abby \<Rightarrow> Abby" where
  "run calls st = foldl (\<lambda>s c. exec c s) st calls"

subsection \<open>Vocabulary of the properties\<close>

text \<open>The first list element that is present: "first satisfied wins".\<close>

fun first_satisfied :: "'a option list \<Rightarrow> 'a option" where
  "first_satisfied [] = None"
| "first_satisfied (None # xs) = first_satisfied xs"
| "first_satisfied (Some x # xs) = Some x"

text \<open>The precedence chain of flag resolution as section 4.2 of the specification words
  it, highest first: the runtime override; in development mode the per-flag development
  override, then the development-wide default; the stored value; the static default.\<close>

definition flag_precedence :: "Env \<Rightarrow> string \<Rightarrow> Abby \<Rightarrow> bool option list" where
  "flag_precedence env key st =
     [flagOverrides st key,
      if development env then devOverrides (settings_flags (config st)) key else None,
      if development env then devDefault (settings_flags (config st)) else None,
      (case map_of (flags (data st)) key of None \<Rightarrow> None | Some v \<Rightarrow> v),
      flagDefault (settings_flags (config st))]"

text \<open>The two sources section 4.3 of the specification puts before the random
  selection: the runtime override, in development mode only, and the persisted value.\<close>

definition variant_precedence :: "Env \<Rightarrow> string \<Rightarrow> Abby \<Rightarrow> string option list" where
  "variant_precedence env key st =
     [if development env then testOverrides st key else None,
      storage_get key (persistantTestStorage st)]"

text \<open>What the methods that only resolve (\<open>getTestVariant\<close>, \<open>getProjectData\<close>,
  \<open>notifyListeners\<close>) leave as it is: the configuration, the listeners, both override
  maps, the flag storage, the names of the stored tests and flags, and every value the
  test storage already holds.\<close>

definition unchanged_by_read :: "Abby \<Rightarrow> Abby \<Rightarrow> bool" where
  "unchanged_by_read st st' \<longleftrightarrow>
     config st' = config st \<and> listeners st' = listeners st \<and>
     flagOverrides st' = flagOverrides st \<and> testOverrides st' = testOverrides st \<and>
     persistantFlagStorage st' = persistantFlagStorage st \<and>
     map fst (tests (data st')) = map fst (tests (data st)) \<and>
     map fst (flags (data st')) = map fst (flags (data st)) \<and>
     (persistantTestStorage st' = None \<longleftrightarrow> persistantTestStorage st = None) \<and>
     (\<forall>k v. storage_get k (persistantTestStorage st) = Some v \<longrightarrow>
            storage_get k (persistantTestStorage st') = Some v)"

text \<open>The calls that set the override of flag \<open>f\<close> in a project \<open>pid\<close>: \<open>updateFlag\<close> on
  \<open>f\<close>, and the ingestion of a cookie string with a flag cookie for \<open>f\<close>, which \<open>init\<close>
  performs itself where \<^verbatim>\<open>document.cookie\<close> exists.\<close>

definition flag_cookie :: "string \<Rightarrow> string \<Rightarrow> string \<times> string \<Rightarrow> bool" where
  "flag_cookie pid f c \<longleftrightarrow>
     startsWith (fst c) ABBY_FF_STORAGE_PREFIX \<and>
     remove_first (ABBY_FF_STORAGE_PREFIX @ pid @ ''_'') (fst c) = f"

definition cookies_override_flag :: "string \<Rightarrow> string \<Rightarrow> string \<Rightarrow> bool" where
  "cookies_override_flag pid f cookies \<longleftrightarrow> list_ex (flag_cookie pid f) (parseCookies cookies)"


text \<open>The calls that set the variant of test \<open>key\<close> again.\<close>

fun rewrites_variant :: "string \<Rightarrow> call \<Rightarrow> bool" where
  "rewrites_variant key (UpdateLocalVariant env k override) = (k = key)"
| "rewrites_variant key _ = False"

text \<open>The test storage holds \<open>v\<close> for \<open>key\<close>, and the instance has a test \<open>key\<close>.\<close>

definition persisted_and_declared :: "string \<Rightarrow> string \<Rightarrow> Abby \<Rightarrow> bool" where
  "persisted_and_declared key v st \<longleftrightarrow>
     storage_get key (persistantTestStorage st) = Some v \<and> key \<in> fst ` set (tests (data st))"

text \<open>What a test is defined by: its name, variants and weights.\<close>

definition test_definitions :: "(string \<times> ABTest) list \<Rightarrow> (string \<times> string list \<times> rat list option) list" where
  "test_definitions ts = map (\<lambda>nt. (fst nt, variants (snd nt), weights (snd nt))) ts"

text \<open>The tests of an instance are defined as \<open>ds\<close> says, each name once.\<close>

definition keeps_definitions :: "(string \<times> string list \<times> rat list option) list \<Rightarrow> Abby \<Rightarrow> bool" where
  "keeps_definitions ds s \<longleftrightarrow>
     test_definitions (tests (data s)) = ds \<and> distinct (map fst (tests (data s)))"

text \<open>The weighted selection can select for test \<open>t\<close> with the random number \<open>u\<close>: as
  many weights as variants, a positive total, and \<open>u\<close> in \<open>[0, 1)\<close>.\<close>

definition selectable :: "ABTest \<Rightarrow> rat \<Rightarrow> bool" where
  "selectable t u \<longleftrightarrow>
     length (validWeights (variants t) (weights t)) = length (variants t) \<and>
     0 < sum_list (validWeights (variants t) (weights t)) \<and> 0 \<le> u \<and> u < 1"



subsection \<open>An instance to evaluate on\<close>

text \<open>A project with two flags and one test of two variants, outside and inside
  development mode, without and with injected storages.\<close>

definition example_config :: AbbyConfig where
  "example_config =
     \<lparr>projectId = ''proj1'', config_flags = Some [''flag1'', ''flag2''],
      settings_flags = \<lparr>devDefault = None, flagDefault = None, devOverrides = Map.empty\<rparr>\<rparr>"

definition example_tests :: "(string \<times> ABTest) list" where
  "example_tests = [(''test'', \<lparr>variants = [''A'', ''B''], weights = None, selectedVariant = None\<rparr>)]"

definition example_random :: "rat stream" where
  "example_random = 0 ## 9 / 10 ## sconst 0"

definition example_abby :: Abby where
  "example_abby = new_Abby example_config example_tests None None example_random"

definition example_abby_stored :: Abby where
  "example_abby_stored =
     new_Abby example_config example_tests (Some Map.empty) (Some Map.empty) example_random"

text \<open>The same instance with a development-wide default of \<open>True\<close>.\<close>

definition example_abby_devDefault :: Abby where
  "example_abby_devDefault =
     new_Abby (example_config\<lparr>settings_flags :=
                 \<lparr>devDefault = Some True, flagDefault = None, devOverrides = Map.empty\<rparr>\<rparr>)
       example_tests None None example_random"

definition env_production :: Env where
  "env_production = \<lparr>NODE_ENV = Some ''production'', document_cookie = None\<rparr>"

definition env_development :: Env where
  "env_development = \<lparr>NODE_ENV = Some ''development'', document_cookie = None\<rparr>"

definition example_response :: AbbyDataResponse where
  "example_response =
     \<lparr>response_tests = [(''test'', [1, 3]), (''ghost'', [1])],
      response_flags = [(''flag1'', True), (''ghost'', True)]\<rparr>"


definition example_calls_variant :: "call list" where
  "example_calls_variant =
     [Init env_production example_response,
      SetLocalOverrides ''abby-ab-proj1_test=A'',
      GetProjectData env_production]"

text \<open>The snapshot without tests and flags.\<close>

definition empty_response :: AbbyDataResponse where
  "empty_response = \<lparr>response_tests = [], response_flags = []\<rparr>"

lemmas example_defs =
  example_config_def example_tests_def example_random_def example_abby_def
  example_abby_stored_def env_production_def env_development_def example_response_def
  new_Abby_def initial_flags_def development_def

lemmas method_defs =
  getFeatureFlag_def getTestVariant_def getWeightedRandomVariant_def validWeights_def
  storage_get_def storage_set_def getProjectData_def notifyListeners_def
  responseToLocalData_def merge_test_def merge_flag_def init_def loadProjectData_def
  updateFlag_def updateLocalVariant_def subscribe_def unsubscribe_def

lemmas cookie_defs =
  setLocalOverrides_def local_override_def parseCookies_def parse_entry_def trim_def
  whitespace_def startsWith_def ABBY_AB_STORAGE_PREFIX_def ABBY_FF_STORAGE_PREFIX_def
  flag_cookie_def cookies_override_flag_def

section \<open>Properties\<close>

subsection \<open>Objects as association lists\<close>

lemma map_of_assign: "map_of (assign k v kvs) = (map_of kvs)(k \<mapsto> v)"
  by (induction kvs) (auto simp: fun_eq_iff)

lemma keys_assign_present: "k \<in> fst ` set kvs \<Longrightarrow> map fst (assign k v kvs) = map fst kvs"
  by (induction kvs) force+

lemma keys_assign_absent: "k \<notin> fst ` set kvs \<Longrightarrow> map fst (assign k v kvs) = map fst kvs @ [k]"
  by (induction kvs) auto

lemma map_of_present: "map_of kvs k = Some v \<Longrightarrow> k \<in> fst ` set kvs"
  by (metis domI dom_map_of_conv_image_fst)

subsection \<open>What resolving leaves unchanged\<close>

lemma unchanged_refl: "unchanged_by_read st st"
  by (simp add: unchanged_by_read_def)

lemma unchanged_trans:
  "unchanged_by_read st st1 \<Longrightarrow> unchanged_by_read st1 st2 \<Longrightarrow> unchanged_by_read st st2"
  by (simp add: unchanged_by_read_def)

lemma unchanged_delivered: "unchanged_by_read st (st\<lparr>delivered := d\<rparr>)"
  by (simp add: unchanged_by_read_def)

lemma getTestVariant_unchanged: "unchanged_by_read st (snd (getTestVariant env key st))"
  by (auto simp: getTestVariant_def unchanged_by_read_def storage_get_def storage_set_def
           split: option.splits prod.splits sum.splits if_splits)

lemma getTestVariant_data: "data (snd (getTestVariant env key st)) = data st"
  by (auto simp: getTestVariant_def split: option.splits prod.splits sum.splits if_splits)

lemma getTestVariant_declared:
  "getTestVariant env key st = (Inr v, st') \<Longrightarrow> key \<in> fst ` set (tests (data st))"
  by (auto simp: getTestVariant_def map_of_present split: option.splits)

lemma resolve_tests_unchanged:
  "unchanged_by_read st (snd (resolve_tests env entries st))"
proof (induction entries arbitrary: st)
  case Nil
  show ?case by (simp add: unchanged_refl)
next
  case (Cons e entries)
  obtain testName test where e: "e = (testName, test)" by (cases e)
  obtain r st' where g: "getTestVariant env testName st = (r, st')" by (cases "getTestVariant env testName st")
  have u: "unchanged_by_read st st'" using getTestVariant_unchanged [of st env testName] g by simp
  show ?case
  proof (cases r)
    case (Inl err)
    then show ?thesis using e g u by simp
  next
    case (Inr v)
    let ?st2 = "st'\<lparr>data := (data st')\<lparr>tests :=
               assign testName (test\<lparr>selectedVariant := Some v\<rparr>) (tests (data st'))\<rparr>\<rparr>"
    have d: "data st' = data st" using getTestVariant_data [of env testName st] g by simp
    have "testName \<in> fst ` set (tests (data st))" using getTestVariant_declared g Inr by blast
    then have "unchanged_by_read st' ?st2"
      by (simp add: unchanged_by_read_def keys_assign_present d)
    then have "unchanged_by_read st ?st2" using u unchanged_trans by blast
    moreover have "unchanged_by_read ?st2 (snd (resolve_tests env entries ?st2))" by (rule Cons.IH)
    ultimately show ?thesis using e g Inr unchanged_trans by simp
  qed
qed

lemma getFeatureFlag_returns: "\<exists>b. getFeatureFlag env key st = Inr b"
  by (simp add: getFeatureFlag_def Let_def split: option.splits)

lemma resolve_flags_unchanged:
  "set keys \<subseteq> fst ` set (flags (data st)) \<Longrightarrow>
   unchanged_by_read st (snd (resolve_flags env keys st))"
proof (induction keys arbitrary: st)
  case Nil
  show ?case by (simp add: unchanged_refl)
next
  case (Cons k keys)
  obtain b where b: "getFeatureFlag env k st = Inr b"
    using getFeatureFlag_returns by blast
  let ?st2 = "st\<lparr>data := (data st)\<lparr>flags := assign k (Some b) (flags (data st))\<rparr>\<rparr>"
  have k: "k \<in> fst ` set (flags (data st))" using Cons.prems by simp
  then have u: "unchanged_by_read st ?st2"
    by (simp add: unchanged_by_read_def keys_assign_present)
  have "fst ` set (flags (data ?st2)) = fst ` set (flags (data st))"
    using u by (metis unchanged_by_read_def list.set_map)
  then have "set keys \<subseteq> fst ` set (flags (data ?st2))" using Cons.prems by simp
  then have "unchanged_by_read ?st2 (snd (resolve_flags env keys ?st2))" by (rule Cons.IH)
  then show ?case using b u unchanged_trans by simp
qed

lemma getProjectData_unchanged: "unchanged_by_read st (snd (getProjectData env st))"
proof -
  obtain r st1 where t: "resolve_tests env (tests (data st)) st = (r, st1)"
    by (cases "resolve_tests env (tests (data st)) st")
  have u1: "unchanged_by_read st st1" using resolve_tests_unchanged [of st env "tests (data st)"] t by simp
  show ?thesis
  proof (cases r)
    case (Inl e)
    then show ?thesis using t u1 by (simp add: getProjectData_def)
  next
    case (Inr x)
    have "unchanged_by_read st1 (snd (resolve_flags env (map fst (flags (data st1))) st1))"
      by (rule resolve_flags_unchanged) simp
    then have "unchanged_by_read st (snd (resolve_flags env (map fst (flags (data st1))) st1))"
      using u1 unchanged_trans by blast
    then show ?thesis using t Inr
      by (auto simp: getProjectData_def split: prod.splits sum.splits)
  qed
qed

lemma notify_each_unchanged: "unchanged_by_read st (snd (notify_each env ls st))"
proof (induction ls arbitrary: st)
  case Nil
  show ?case by (simp add: unchanged_refl)
next
  case (Cons l ls)
  obtain r st' where g: "getProjectData env st = (r, st')" by (cases "getProjectData env st")
  have u: "unchanged_by_read st st'" using getProjectData_unchanged [of st env] g by simp
  show ?case
  proof (cases r)
    case (Inl e)
    then show ?thesis using g u by simp
  next
    case (Inr d)
    let ?st2 = "st'\<lparr>delivered := delivered st' @ [(l, d)]\<rparr>"
    have "unchanged_by_read st ?st2" using u unchanged_delivered unchanged_trans by blast
    moreover have "unchanged_by_read ?st2 (snd (notify_each env ls ?st2))" by (rule Cons.IH)
    ultimately show ?thesis using g Inr unchanged_trans by simp
  qed
qed

lemma notifyListeners_unchanged: "unchanged_by_read st (snd (notifyListeners env st))"
  by (simp add: notifyListeners_def notify_each_unchanged)

subsection \<open>What the other methods leave unchanged\<close>

lemma local_override_frame:
  "config (local_override st c) = config st"
  "data (local_override st c) = data st"
  "listeners (local_override st c) = listeners st"
  "persistantTestStorage (local_override st c) = persistantTestStorage st"
  "persistantFlagStorage (local_override st c) = persistantFlagStorage st"
  "Math_random (local_override st c) = Math_random st"
  "delivered (local_override st c) = delivered st"
  by (simp_all add: local_override_def Let_def)

lemma foldl_local_override_frame:
  "config (foldl local_override st cs) = config st \<and>
   data (foldl local_override st cs) = data st \<and>
   listeners (foldl local_override st cs) = listeners st \<and>
   persistantTestStorage (foldl local_override st cs) = persistantTestStorage st \<and>
   persistantFlagStorage (foldl local_override st cs) = persistantFlagStorage st \<and>
   Math_random (foldl local_override st cs) = Math_random st \<and>
   delivered (foldl local_override st cs) = delivered st"
  by (induction cs arbitrary: st) (simp_all add: local_override_frame)

lemma setLocalOverrides_frame:
  "config (setLocalOverrides cookies st) = config st"
  "data (setLocalOverrides cookies st) = data st"
  "listeners (setLocalOverrides cookies st) = listeners st"
  "persistantTestStorage (setLocalOverrides cookies st) = persistantTestStorage st"
  "persistantFlagStorage (setLocalOverrides cookies st) = persistantFlagStorage st"
  "Math_random (setLocalOverrides cookies st) = Math_random st"
  "delivered (setLocalOverrides cookies st) = delivered st"
  by (simp_all add: setLocalOverrides_def foldl_local_override_frame)




lemma merge_test_keys: "map fst (merge_test acc nw) = map fst acc"
  by (simp add: merge_test_def keys_assign_present map_of_present split: option.splits)

lemma foldl_merge_test_keys: "map fst (foldl merge_test acc nws) = map fst acc"
  by (induction nws arbitrary: acc) (simp_all add: merge_test_keys)

lemma responseToLocalData_keys:
  "map fst (tests (responseToLocalData d st)) = map fst (tests (data st))"
  by (simp add: responseToLocalData_def foldl_merge_test_keys)

text \<open>What a call of \<open>init\<close> leaves behind, in the three stages of its body.\<close>

lemma init_stages:
  "\<exists>st1. unchanged_by_read (st\<lparr>data := responseToLocalData d st\<rparr>) st1 \<and>
     (snd (init env d st) = st1 \<or>
      unchanged_by_read (case document_cookie env of None \<Rightarrow> st1 | Some c \<Rightarrow> setLocalOverrides c st1)
        (snd (init env d st)))"
proof -
  let ?st0 = "st\<lparr>data := responseToLocalData d st\<rparr>"
  obtain r st1 where n: "notifyListeners env ?st0 = (r, st1)" by (cases "notifyListeners env ?st0")
  have u: "unchanged_by_read ?st0 st1" using notifyListeners_unchanged [of ?st0 env] n by simp
  show ?thesis
  proof (cases r)
    case (Inl e)
    then have "snd (init env d st) = st1" using n by (simp add: init_def)
    then show ?thesis using u by blast
  next
    case (Inr x)
    let ?st2 = "case document_cookie env of None \<Rightarrow> st1 | Some c \<Rightarrow> setLocalOverrides c st1"
    have "snd (init env d st) = snd (getProjectData env ?st2)" using n Inr by (simp add: init_def)
    then have "unchanged_by_read ?st2 (snd (init env d st))" using getProjectData_unchanged by simp
    then show ?thesis using u by blast
  qed
qed

lemma init_config: "config (snd (init env d st)) = config st"
proof -
  obtain st1 where a: "unchanged_by_read (st\<lparr>data := responseToLocalData d st\<rparr>) st1"
    and b: "snd (init env d st) = st1 \<or>
      unchanged_by_read (case document_cookie env of None \<Rightarrow> st1 | Some c \<Rightarrow> setLocalOverrides c st1)
        (snd (init env d st))"
    using init_stages by blast
  have c1: "config st1 = config st" using a by (simp add: unchanged_by_read_def)
  from b show ?thesis
  proof
    assume "snd (init env d st) = st1"
    then show ?thesis using c1 by simp
  next
    assume "unchanged_by_read (case document_cookie env of None \<Rightarrow> st1 | Some c \<Rightarrow> setLocalOverrides c st1)
        (snd (init env d st))"
    then show ?thesis using c1
      by (cases "document_cookie env") (simp_all add: unchanged_by_read_def setLocalOverrides_frame)
  qed
qed


lemma loadProjectData_snd:
  "snd (loadProjectData env fetched st) = (case fetched of None \<Rightarrow> st | Some d \<Rightarrow> snd (init env d st))"
  by (simp add: loadProjectData_def split: option.splits prod.splits sum.splits)

lemma updateFlag_config: "config (snd (updateFlag env name val st)) = config st"
  using notifyListeners_unchanged
  by (simp add: updateFlag_def Let_def unchanged_by_read_def)

lemma updateFlag_flagOverrides:
  "flagOverrides (snd (updateFlag env name val st)) = (flagOverrides st)(name \<mapsto> val)"
  using notifyListeners_unchanged
  by (simp add: updateFlag_def Let_def unchanged_by_read_def)

lemma updateLocalVariant_unchanged:
  "unchanged_by_read
     (st\<lparr>testOverrides := (testOverrides st)(key \<mapsto> override),
         persistantTestStorage := storage_set key override (persistantTestStorage st)\<rparr>)
     (snd (updateLocalVariant env key override st))"
  by (simp add: updateLocalVariant_def notifyListeners_unchanged)

lemma exec_config: "config (exec c st) = config st"
proof (cases c)
  case (Init env d)
  then show ?thesis by (simp add: init_config)
next
  case (LoadProjectData env fetched)
  then show ?thesis by (simp add: loadProjectData_snd init_config split: option.splits)
next
  case (GetProjectData env)
  then show ?thesis using getProjectData_unchanged by (simp add: unchanged_by_read_def)
next
  case (GetTestVariant env key)
  then show ?thesis using getTestVariant_unchanged by (simp add: unchanged_by_read_def)
next
  case (UpdateLocalVariant env key override)
  then show ?thesis using updateLocalVariant_unchanged [where st = st and key = key and override = override and env = env]
    by (simp add: unchanged_by_read_def)
next
  case (UpdateFlag env name val)
  then show ?thesis by (simp add: updateFlag_config)
qed (simp_all add: subscribe_def unsubscribe_def setLocalOverrides_frame)


lemma run_config: "config (run calls st) = config st"
  by (induction calls arbitrary: st) (simp_all add: run_def exec_config)


lemma getFeatureFlag_override: "flagOverrides st key = Some b \<Longrightarrow> getFeatureFlag env key st = Inr b"
  by (simp add: getFeatureFlag_def)

text \<open>A property that each step of \<open>init\<close>, or of a notification, preserves is
  preserved by the whole.\<close>

lemma init_invariant:
  assumes "P (st\<lparr>data := responseToLocalData d st\<rparr>)"
    and "\<And>s. P s \<Longrightarrow> P (snd (notifyListeners env s))"
    and "\<And>s. P s \<Longrightarrow> P (snd (getProjectData env s))"
    and "\<And>s c. P s \<Longrightarrow> P (setLocalOverrides c s)"
  shows "P (snd (init env d st))"
proof -
  let ?st0 = "st\<lparr>data := responseToLocalData d st\<rparr>"
  obtain r st1 where n: "notifyListeners env ?st0 = (r, st1)" by (cases "notifyListeners env ?st0")
  have p1: "P st1" using assms(2) [OF assms(1)] n by simp
  show ?thesis
  proof (cases r)
    case (Inl e)
    then show ?thesis using n p1 by (simp add: init_def)
  next
    case (Inr x)
    let ?st2 = "case document_cookie env of None \<Rightarrow> st1 | Some c \<Rightarrow> setLocalOverrides c st1"
    have "P ?st2" using p1 assms(4) by (cases "document_cookie env") simp_all
    then have "P (snd (getProjectData env ?st2))" by (rule assms(3))
    then show ?thesis using n Inr by (simp add: init_def)
  qed
qed

lemma notify_each_invariant:
  assumes "P st"
    and "\<And>s. P s \<Longrightarrow> P (snd (getProjectData env s))"
    and "\<And>s d. P s \<Longrightarrow> P (s\<lparr>delivered := d\<rparr>)"
  shows "P (snd (notify_each env ls st))"
  using assms(1)
proof (induction ls arbitrary: st)
  case Nil
  then show ?case by simp
next
  case (Cons l ls)
  obtain r st' where g: "getProjectData env st = (r, st')" by (cases "getProjectData env st")
  have p: "P st'" using assms(2) [OF Cons.prems] g by simp
  show ?case
  proof (cases r)
    case (Inl e)
    then show ?thesis using g p by simp
  next
    case (Inr d)
    have "P (st'\<lparr>delivered := delivered st' @ [(l, d)]\<rparr>)" using p by (rule assms(3))
    then have "P (snd (notify_each env ls (st'\<lparr>delivered := delivered st' @ [(l, d)]\<rparr>)))"
      by (rule Cons.IH)
    then show ?thesis using g Inr by simp
  qed
qed

subsection \<open>Precedence of flag resolution\<close>

text \<open>C1. For every flag name, \<open>getFeatureFlag\<close> returns the first value present in the
  chain: the runtime override, whatever the environment mode; in development mode only,
  the per-flag development override of the static configuration, else its
  development-wide default; the stored value; the static default; and \<open>False\<close> when
  none is present. The runtime override is the one \<open>updateFlag\<close> sets, in every mode.\<close>

theorem getFeatureFlag_precedence:
  "getFeatureFlag env key st =
     Inr (case first_satisfied (flag_precedence env key st) of None \<Rightarrow> False | Some b \<Rightarrow> b) \<and>
   getFeatureFlag env key (snd (updateFlag env' key b st)) = Inr b"
proof
  show "getFeatureFlag env key st =
     Inr (case first_satisfied (flag_precedence env key st) of None \<Rightarrow> False | Some b \<Rightarrow> b)"
    by (simp add: getFeatureFlag_def flag_precedence_def Let_def split: option.splits)
  show "getFeatureFlag env key (snd (updateFlag env' key b st)) = Inr b"
    by (simp add: getFeatureFlag_override updateFlag_flagOverrides)
qed

theorem getFeatureFlag_precedence_witness:
  "getFeatureFlag env_development ''flag1'' example_abby = Inr False \<and>
   getFeatureFlag env_development ''flag1''
     (snd (updateFlag env_production ''flag1'' True example_abby)) = Inr True"
  using getFeatureFlag_precedence [of env_development "''flag1''" example_abby env_production True]
  by (simp add: flag_precedence_def example_defs)

subsection \<open>Precedence of variant resolution\<close>

lemma updateLocalVariant_testOverrides:
  "testOverrides (snd (updateLocalVariant env key override st)) = (testOverrides st)(key \<mapsto> override)"
  using updateLocalVariant_unchanged [where st = st and key = key and override = override and env = env]
  by (simp add: unchanged_by_read_def)

text \<open>C2. For every declared test, \<open>getTestVariant\<close> returns the runtime override
  (the one \<open>updateLocalVariant\<close> sets) when the environment is development; else the value
  the test storage holds for the key; else it runs the weighted selection over the
  test's variants and weights, and a variant selected is written to the test storage
  under the key at once.\<close>

theorem getTestVariant_precedence:
  assumes "map_of (tests (data st)) key = Some t"
  shows "getTestVariant env key st =
     (case first_satisfied (variant_precedence env key st) of
        Some v \<Rightarrow> (Inr v, st)
      | None \<Rightarrow>
          (case getWeightedRandomVariant (variants t) (weights t) (Math_random st) of
             (Inl e, rnd) \<Rightarrow> (Inl e, st\<lparr>Math_random := rnd\<rparr>)
           | (Inr v, rnd) \<Rightarrow>
               (Inr v, st\<lparr>Math_random := rnd,
                          persistantTestStorage := storage_set key v (persistantTestStorage st)\<rparr>))) \<and>
     testOverrides (snd (updateLocalVariant env' key override st)) key = Some override \<and>
     (first_satisfied (variant_precedence env key st) = None \<longrightarrow>
      persistantTestStorage st \<noteq> None \<longrightarrow>
      (\<forall>v st'. getTestVariant env key st = (Inr v, st') \<longrightarrow>
         storage_get key (persistantTestStorage st') = Some v))"
proof (intro conjI impI allI)
  show "getTestVariant env key st =
     (case first_satisfied (variant_precedence env key st) of
        Some v \<Rightarrow> (Inr v, st)
      | None \<Rightarrow>
          (case getWeightedRandomVariant (variants t) (weights t) (Math_random st) of
             (Inl e, rnd) \<Rightarrow> (Inl e, st\<lparr>Math_random := rnd\<rparr>)
           | (Inr v, rnd) \<Rightarrow>
               (Inr v, st\<lparr>Math_random := rnd,
                          persistantTestStorage := storage_set key v (persistantTestStorage st)\<rparr>)))"
    using assms by (simp add: getTestVariant_def variant_precedence_def split: option.splits)
  show "testOverrides (snd (updateLocalVariant env' key override st)) key = Some override"
    by (simp add: updateLocalVariant_testOverrides)
  fix v st'
  assume "first_satisfied (variant_precedence env key st) = None"
    and "persistantTestStorage st \<noteq> None"
    and "getTestVariant env key st = (Inr v, st')"
  then show "storage_get key (persistantTestStorage st') = Some v"
    using assms
    by (auto simp: getTestVariant_def variant_precedence_def storage_get_def storage_set_def
             split: option.splits if_splits prod.splits sum.splits)
qed

theorem getTestVariant_precedence_witness:
  "map_of (tests (data example_abby_stored)) ''test'' = Some (snd (hd example_tests)) \<and>
   getTestVariant env_production ''test'' example_abby_stored =
     (Inr ''A'', example_abby_stored\<lparr>Math_random := 9 / 10 ## sconst 0,
        persistantTestStorage := Some [''test'' \<mapsto> ''A'']\<rparr>) \<and>
   storage_get ''test''
     (persistantTestStorage (snd (getTestVariant env_production ''test'' example_abby_stored))) =
     Some ''A''"
proof -
  have d: "map_of (tests (data example_abby_stored)) ''test'' = Some (snd (hd example_tests))"
    by (simp add: example_defs)
  have n: "first_satisfied (variant_precedence env_production ''test'' example_abby_stored) = None"
    by (simp add: variant_precedence_def example_defs storage_get_def)
  have s: "persistantTestStorage example_abby_stored \<noteq> None" by (simp add: example_defs)
  have g: "getTestVariant env_production ''test'' example_abby_stored =
     (Inr ''A'', example_abby_stored\<lparr>Math_random := 9 / 10 ## sconst 0,
        persistantTestStorage := Some [''test'' \<mapsto> ''A'']\<rparr>)"
    using getTestVariant_precedence [OF d, of env_production] n
    by (simp add: example_defs getWeightedRandomVariant_def validWeights_def storage_set_def)
  show ?thesis
    using d g getTestVariant_precedence [OF d, of env_production] by (simp add: storage_get_def)
qed

subsection \<open>Names that were never declared\<close>




subsection \<open>The resolved variant and the declared variants\<close>

lemma pickVariant_member: "pickVariant vs ws c d = Some v \<Longrightarrow> v \<in> set vs"
  by (induction vs ws c d rule: pickVariant.induct) (auto split: if_splits)

lemma pickVariant_picks:
  "length vs = length ws \<Longrightarrow> c \<le> d \<Longrightarrow> d < c + sum_list ws \<Longrightarrow> \<exists>v. pickVariant vs ws c d = Some v"
proof (induction vs ws c d rule: pickVariant.induct)
  case (1 v vs w ws cumulative draw)
  show ?case
  proof (cases "cumulative + w > draw")
    case True
    then show ?thesis by simp
  next
    case False
    then have "\<exists>v. pickVariant vs ws (cumulative + w) draw = Some v"
      using "1.IH" "1.prems" by (simp add: add.assoc)
    then show ?thesis using False by simp
  qed
qed simp_all

lemma getWeightedRandomVariant_member:
  "getWeightedRandomVariant vs ws rnd = (Inr v, rnd') \<Longrightarrow> v \<in> set vs"
  by (auto simp: getWeightedRandomVariant_def pickVariant_member split: if_splits option.splits)

lemma getWeightedRandomVariant_returns:
  assumes "selectable t (shd rnd)"
  shows "\<exists>v. getWeightedRandomVariant (variants t) (weights t) rnd = (Inr v, stl rnd)"
proof -
  let ?w = "validWeights (variants t) (weights t)"
  have l: "length (variants t) = length ?w" and s: "0 < sum_list ?w"
    and u: "0 \<le> shd rnd" "shd rnd < 1"
    using assms by (simp_all add: selectable_def)
  have lo: "0 \<le> shd rnd * sum_list ?w" using u s by simp
  have "shd rnd * sum_list ?w < 1 * sum_list ?w" using u s by (intro mult_strict_right_mono)
  then have hi: "shd rnd * sum_list ?w < 0 + sum_list ?w" by simp
  obtain v where "pickVariant (variants t) ?w 0 (shd rnd * sum_list ?w) = Some v"
    using pickVariant_picks [OF l lo hi] by blast
  then show ?thesis using l s by (simp add: getWeightedRandomVariant_def)
qed

text \<open>C4, as stated. Whatever branch supplies it, the returned variant is one of the test's
  declared variants. It is not: the test declares \<^verbatim>\<open>A\<close> and \<^verbatim>\<open>B\<close>; in development mode an
  override ingested from the cookie \<^verbatim>\<open>abby-ab-proj1_test=C\<close> is returned, and in any mode a
  persisted \<^verbatim>\<open>C\<close> is returned.\<close>

theorem variant_not_declared_counterexample:
  "map_of (tests (data example_abby)) ''test'' =
     Some \<lparr>variants = [''A'', ''B''], weights = None, selectedVariant = None\<rparr> \<and>
   fst (getTestVariant env_development ''test''
          (setLocalOverrides ''abby-ab-proj1_test=C'' example_abby)) = Inr ''C'' \<and>
   fst (getTestVariant env_production ''test''
          (example_abby\<lparr>persistantTestStorage := Some [''test'' \<mapsto> ''C'']\<rparr>)) = Inr ''C''"
  by (simp add: example_defs cookie_defs getTestVariant_def storage_get_def Let_def)

text \<open>C4, amended. For a declared test, the variant a resolution returns is one of the
  test's declared variants provided that the runtime override consulted (in development
  mode) and the persisted value, where there is one, are declared variants: both are
  returned as they are, and the weighted selection returns a declared variant. The
  resolution does return a variant where the selection can select.\<close>

theorem getTestVariant_member:
  assumes "map_of (tests (data st)) key = Some t"
    and "\<forall>override. development env \<and> testOverrides st key = Some override \<longrightarrow>
           override \<in> set (variants t)"
    and "\<forall>p. storage_get key (persistantTestStorage st) = Some p \<longrightarrow> p \<in> set (variants t)"
  shows "(\<forall>v st'. getTestVariant env key st = (Inr v, st') \<longrightarrow> v \<in> set (variants t)) \<and>
         (selectable t (shd (Math_random st)) \<longrightarrow>
            (\<exists>v st'. getTestVariant env key st = (Inr v, st')))"
proof (intro conjI allI impI)
  fix v st'
  assume "getTestVariant env key st = (Inr v, st')"
  then show "v \<in> set (variants t)"
    using assms
    by (auto simp: getTestVariant_def getWeightedRandomVariant_member
             split: option.splits if_splits prod.splits sum.splits)
next
  assume "selectable t (shd (Math_random st))"
  then obtain v where "getWeightedRandomVariant (variants t) (weights t) (Math_random st) =
      (Inr v, stl (Math_random st))"
    using getWeightedRandomVariant_returns by blast
  then show "\<exists>v st'. getTestVariant env key st = (Inr v, st')"
    using assms(1) by (simp add: getTestVariant_def split: option.splits)
qed

theorem getTestVariant_member_witness:
  "fst (getTestVariant env_production ''test'' example_abby) = Inr ''A'' \<and>
   ''A'' \<in> set (variants (snd (hd example_tests)))"
proof -
  let ?t = "snd (hd example_tests)"
  have a: "map_of (tests (data example_abby)) ''test'' = Some ?t" by (simp add: example_defs)
  have b: "\<forall>override. development env_production \<and> testOverrides example_abby ''test'' = Some override \<longrightarrow>
           override \<in> set (variants ?t)" by (simp add: example_defs)
  have c: "\<forall>p. storage_get ''test'' (persistantTestStorage example_abby) = Some p \<longrightarrow>
           p \<in> set (variants ?t)" by (simp add: example_defs storage_get_def)
  have s: "selectable ?t (shd (Math_random example_abby))"
    by (simp add: selectable_def validWeights_def example_defs)
  have g: "fst (getTestVariant env_production ''test'' example_abby) = Inr ''A''"
    by (simp add: example_defs method_defs)
  show ?thesis
    using getTestVariant_member [OF a b c] s g by (simp add: example_defs)
qed

subsection \<open>An empty snapshot\<close>

lemma assign_same_definition:
  "map_of kvs n = Some t \<Longrightarrow> variants t' = variants t \<Longrightarrow> weights t' = weights t \<Longrightarrow>
   test_definitions (assign n t' kvs) = test_definitions kvs"
  by (induction kvs) (auto simp: test_definitions_def split: if_splits)

lemma resolve_tests_definitions:
  assumes "\<forall>e \<in> set entries. \<exists>t'. map_of (tests (data st)) (fst e) = Some t' \<and>
             variants t' = variants (snd e) \<and> weights t' = weights (snd e)"
  shows "test_definitions (tests (data (snd (resolve_tests env entries st)))) =
         test_definitions (tests (data st))"
  using assms
proof (induction entries arbitrary: st)
  case Nil
  show ?case by simp
next
  case (Cons e entries)
  obtain testName test where e: "e = (testName, test)" by (cases e)
  obtain r st' where g: "getTestVariant env testName st = (r, st')"
    by (cases "getTestVariant env testName st")
  have d: "data st' = data st" using getTestVariant_data [of env testName st] g by simp
  show ?case
  proof (cases r)
    case (Inl err)
    then show ?thesis using e g d by simp
  next
    case (Inr v)
    let ?new = "test\<lparr>selectedVariant := Some v\<rparr>"
    let ?st2 = "st'\<lparr>data := (data st')\<lparr>tests := assign testName ?new (tests (data st'))\<rparr>\<rparr>"
    obtain t' where t': "map_of (tests (data st)) testName = Some t'"
      "variants t' = variants test" "weights t' = weights test"
      using Cons.prems e by auto
    have same: "test_definitions (tests (data ?st2)) = test_definitions (tests (data st))"
      using t' d by (simp add: assign_same_definition)
    have "\<forall>e \<in> set entries. \<exists>u. map_of (tests (data ?st2)) (fst e) = Some u \<and>
             variants u = variants (snd e) \<and> weights u = weights (snd e)"
    proof
      fix x assume x: "x \<in> set entries"
      then obtain u where u: "map_of (tests (data st)) (fst x) = Some u"
        "variants u = variants (snd x)" "weights u = weights (snd x)"
        using Cons.prems by auto
      show "\<exists>u. map_of (tests (data ?st2)) (fst x) = Some u \<and>
             variants u = variants (snd x) \<and> weights u = weights (snd x)"
      proof (cases "fst x = testName")
        case True
        then have "u = t'" using u t' by simp
        then show ?thesis using True u t' by (simp add: map_of_assign d)
      next
        case False
        then show ?thesis using u by (simp add: map_of_assign d)
      qed
    qed
    then have "test_definitions (tests (data (snd (resolve_tests env entries ?st2)))) =
         test_definitions (tests (data ?st2))" by (rule Cons.IH)
    then show ?thesis using e g Inr same by simp
  qed
qed

lemma resolve_flags_tests: "tests (data (snd (resolve_flags env keys st))) = tests (data st)"
proof (induction keys arbitrary: st)
  case Nil
  show ?case by simp
next
  case (Cons k keys)
  obtain b where b: "getFeatureFlag env k st = Inr b" using getFeatureFlag_returns by blast
  show ?case using b by (simp add: Cons.IH)
qed

lemma getProjectData_definitions:
  assumes "distinct (map fst (tests (data st)))"
  shows "test_definitions (tests (data (snd (getProjectData env st)))) =
         test_definitions (tests (data st))"
proof -
  have "\<forall>e \<in> set (tests (data st)). \<exists>t'. map_of (tests (data st)) (fst e) = Some t' \<and>
             variants t' = variants (snd e) \<and> weights t' = weights (snd e)"
    using assms by (metis map_of_is_SomeI prod.collapse)
  then have r: "test_definitions (tests (data (snd (resolve_tests env (tests (data st)) st)))) =
         test_definitions (tests (data st))" by (rule resolve_tests_definitions)
  obtain x st1 where t: "resolve_tests env (tests (data st)) st = (x, st1)"
    by (cases "resolve_tests env (tests (data st)) st")
  show ?thesis
  proof (cases x)
    case (Inl e)
    then show ?thesis using t r by (simp add: getProjectData_def)
  next
    case (Inr u)
    have "tests (data (snd (resolve_flags env (map fst (flags (data st1))) st1))) = tests (data st1)"
      by (rule resolve_flags_tests)
    then show ?thesis using t r Inr
      by (auto simp: getProjectData_def split: prod.splits sum.splits)
  qed
qed

lemma getProjectData_keeps_definitions:
  assumes "keeps_definitions ds s"
  shows "keeps_definitions ds (snd (getProjectData env s))"
proof -
  have "map fst (tests (data (snd (getProjectData env s)))) = map fst (tests (data s))"
    using getProjectData_unchanged [of s env] by (simp add: unchanged_by_read_def)
  then show ?thesis using assms getProjectData_definitions [of s env]
    by (simp add: keeps_definitions_def)
qed

lemma init_empty_definitions:
  assumes "distinct (map fst (tests (data st)))"
  shows "test_definitions (tests (data (snd (init env empty_response st)))) =
         test_definitions (tests (data st))"
proof -
  have "keeps_definitions (test_definitions (tests (data st))) (snd (init env empty_response st))"
  proof (rule init_invariant)
    show "keeps_definitions (test_definitions (tests (data st)))
            (st\<lparr>data := responseToLocalData empty_response st\<rparr>)"
      using assms by (simp add: keeps_definitions_def responseToLocalData_def empty_response_def)
  next
    fix s assume p: "keeps_definitions (test_definitions (tests (data st))) s"
    show "keeps_definitions (test_definitions (tests (data st))) (snd (notifyListeners env s))"
      unfolding notifyListeners_def
    proof (rule notify_each_invariant
            [where P = "keeps_definitions (test_definitions (tests (data st)))", OF p])
      fix s' assume "keeps_definitions (test_definitions (tests (data st))) s'"
      then show "keeps_definitions (test_definitions (tests (data st))) (snd (getProjectData env s'))"
        by (rule getProjectData_keeps_definitions)
    next
      fix s' :: Abby and d assume "keeps_definitions (test_definitions (tests (data st))) s'"
      then show "keeps_definitions (test_definitions (tests (data st))) (s'\<lparr>delivered := d\<rparr>)"
        by (simp add: keeps_definitions_def)
    qed
  next
    fix s assume "keeps_definitions (test_definitions (tests (data st))) s"
    then show "keeps_definitions (test_definitions (tests (data st))) (snd (getProjectData env s))"
      by (rule getProjectData_keeps_definitions)
  next
    fix s c assume "keeps_definitions (test_definitions (tests (data st))) s"
    then show "keeps_definitions (test_definitions (tests (data st))) (setLocalOverrides c s)"
      by (simp add: keeps_definitions_def setLocalOverrides_frame)
  qed
  then show ?thesis by (simp add: keeps_definitions_def)
qed

lemma init_empty_flags: "flags (data (snd (init env empty_response st))) = []"
proof (rule init_invariant [where P = "\<lambda>s. flags (data s) = []"])
  show "flags (data (st\<lparr>data := responseToLocalData empty_response st\<rparr>)) = []"
    by (simp add: responseToLocalData_def empty_response_def)
next
  fix s :: Abby assume "flags (data s) = []"
  then show "flags (data (snd (notifyListeners env s))) = []"
    using notifyListeners_unchanged [of s env] by (simp add: unchanged_by_read_def)
next
  fix s :: Abby assume "flags (data s) = []"
  then show "flags (data (snd (getProjectData env s))) = []"
    using getProjectData_unchanged [of s env] by (simp add: unchanged_by_read_def)
next
  fix s :: Abby and c assume "flags (data s) = []"
  then show "flags (data (setLocalOverrides c s)) = []"
    by (simp add: setLocalOverrides_frame)
qed

text \<open>C5, as stated. \<open>init\<close> with an empty snapshot leaves the stored flag values unchanged.
  It does not: after a first snapshot \<^verbatim>\<open>flag1\<close> is stored as enabled and resolves to
  \<open>True\<close>; after \<open>init\<close> with the empty snapshot no flag is stored and \<^verbatim>\<open>flag1\<close> resolves
  to \<open>False\<close>.\<close>

theorem init_empty_counterexample:
  "getFeatureFlag env_production ''flag1''
     (snd (init env_production example_response example_abby)) = Inr True \<and>
   getFeatureFlag env_production ''flag1''
     (snd (init env_production empty_response
        (snd (init env_production example_response example_abby)))) = Inr False \<and>
   flags (data (snd (init env_production example_response example_abby))) =
     [(''flag1'', Some True), (''ghost'', Some True)] \<and>
   flags (data (snd (init env_production empty_response
        (snd (init env_production example_response example_abby))))) = []"
  by (simp add: example_defs method_defs empty_response_def Let_def)

text \<open>C5, amended. An absent snapshot does not reach \<open>init\<close>: \<open>loadProjectData\<close> returns
  and leaves the instance as it is. \<open>init\<close> with an empty snapshot leaves the stored flags
  empty, and leaves the names, variants and weights of the tests as they were.\<close>

theorem init_empty_snapshot:
  "loadProjectData env None st = (Inr (), st) \<and>
   flags (data (snd (init env empty_response st))) = [] \<and>
   (distinct (map fst (tests (data st))) \<longrightarrow>
      test_definitions (tests (data (snd (init env empty_response st)))) =
      test_definitions (tests (data st)))"
  by (simp add: loadProjectData_def init_empty_flags init_empty_definitions)

theorem init_empty_snapshot_witness:
  "loadProjectData env_production None (snd (init env_production example_response example_abby)) =
     (Inr (), snd (init env_production example_response example_abby)) \<and>
   flags (data (snd (init env_production empty_response
        (snd (init env_production example_response example_abby))))) = [] \<and>
   test_definitions (tests (data (snd (init env_production empty_response
        (snd (init env_production example_response example_abby)))))) =
     [(''test'', [''A'', ''B''], Some [1, 3])]"
proof -
  let ?st = "snd (init env_production example_response example_abby)"
  have t: "tests (data ?st) =
     [(''test'', \<lparr>variants = [''A'', ''B''], weights = Some [1, 3], selectedVariant = Some ''A''\<rparr>)]"
    by (simp add: example_defs method_defs Let_def)
  have d: "distinct (map fst (tests (data ?st)))" by (simp add: t)
  show ?thesis
    using d init_empty_snapshot [of env_production ?st]
    by (simp add: t test_definitions_def)
qed

subsection \<open>Merging a snapshot\<close>








subsection \<open>A flag override outlives snapshots\<close>



subsection \<open>Notification\<close>






subsection \<open>Resolving twice\<close>











lemma resolve_flags_returns: "fst (resolve_flags env keys s) = Inr ()"
proof (induction keys arbitrary: s)
  case Nil
  show ?case by simp
next
  case (Cons x keys)
  obtain b where b: "getFeatureFlag env x s = Inr b" using getFeatureFlag_returns by blast
  show ?case using b by (simp add: Cons.IH)
qed













subsection \<open>What the listeners receive\<close>




subsection \<open>Reading the resolved state\<close>

text \<open>C9, on the code. On a fresh instance the stored flag values are absent and the stored test
  has no selected variant. After one \<open>getProjectData\<close> the stored flag values are the
  resolved ones and the stored test carries the selected variant: the read has written
  into \<^verbatim>\<open>#data\<close>. What a read wrote is the stored value of later resolutions: a
  flag that resolves to \<open>False\<close> outside development mode resolves to \<open>True\<close> there
  once a read in development mode has stored the development default.\<close>

theorem getProjectData_writes_stored_data:
  "flags (data example_abby) = [(''flag1'', None), (''flag2'', None)] \<and>
   tests (data example_abby) =
     [(''test'', \<lparr>variants = [''A'', ''B''], weights = None, selectedVariant = None\<rparr>)] \<and>
   flags (data (snd (getProjectData env_production example_abby))) =
     [(''flag1'', Some False), (''flag2'', Some False)] \<and>
   tests (data (snd (getProjectData env_production example_abby))) =
     [(''test'', \<lparr>variants = [''A'', ''B''], weights = None, selectedVariant = Some ''A''\<rparr>)] \<and>
   getFeatureFlag env_production ''flag1'' example_abby_devDefault = Inr False \<and>
   getFeatureFlag env_production ''flag1''
     (snd (getProjectData env_development example_abby_devDefault)) = Inr True"
  by (simp add: example_defs example_abby_devDefault_def method_defs Let_def)

subsection \<open>A variant override reaches the test storage in every mode\<close>

lemma persisted_and_declared_read:
  "persisted_and_declared key v st \<Longrightarrow> unchanged_by_read st st' \<Longrightarrow> persisted_and_declared key v st'"
  by (metis list.set_map persisted_and_declared_def unchanged_by_read_def)

lemma init_persisted_and_declared:
  assumes "persisted_and_declared key v st"
  shows "persisted_and_declared key v (snd (init env d st))"
proof (rule init_invariant)
  show "persisted_and_declared key v (st\<lparr>data := responseToLocalData d st\<rparr>)"
    using assms responseToLocalData_keys [of d st]
    by (metis (no_types, lifting) list.set_map persisted_and_declared_def Abby.select_convs(2,6)
        Abby.surjective Abby.update_convs(2))
next
  fix s assume "persisted_and_declared key v s"
  then show "persisted_and_declared key v (snd (notifyListeners env s))"
    using notifyListeners_unchanged persisted_and_declared_read by blast
next
  fix s assume "persisted_and_declared key v s"
  then show "persisted_and_declared key v (snd (getProjectData env s))"
    using getProjectData_unchanged persisted_and_declared_read by blast
next
  fix s c assume "persisted_and_declared key v s"
  then show "persisted_and_declared key v (setLocalOverrides c s)"
    by (simp add: persisted_and_declared_def setLocalOverrides_frame)
qed

lemma exec_persisted_and_declared:
  assumes "persisted_and_declared key v st" and "\<not> rewrites_variant key c"
  shows "persisted_and_declared key v (exec c st)"
proof (cases c)
  case (Init env d)
  then show ?thesis using assms by (simp add: init_persisted_and_declared)
next
  case (LoadProjectData env fetched)
  then show ?thesis using assms
    by (cases fetched) (simp_all add: loadProjectData_snd init_persisted_and_declared)
next
  case (GetProjectData env)
  have "persisted_and_declared key v (snd (getProjectData env st))"
    using assms(1) getProjectData_unchanged persisted_and_declared_read by blast
  then show ?thesis using GetProjectData by simp
next
  case (GetFeatureFlag env k)
  then show ?thesis using assms by simp
next
  case (GetTestVariant env k)
  have "persisted_and_declared key v (snd (getTestVariant env k st))"
    using assms(1) getTestVariant_unchanged persisted_and_declared_read by blast
  then show ?thesis using GetTestVariant by simp
next
  case (UpdateLocalVariant env k override)
  then have "k \<noteq> key" using assms by simp
  then have "persisted_and_declared key v
     (st\<lparr>testOverrides := (testOverrides st)(k \<mapsto> override),
         persistantTestStorage := storage_set k override (persistantTestStorage st)\<rparr>)"
    using assms
    by (auto simp: persisted_and_declared_def storage_get_def storage_set_def split: option.splits)
  then have "persisted_and_declared key v (snd (updateLocalVariant env k override st))"
    using updateLocalVariant_unchanged persisted_and_declared_read by blast
  then show ?thesis using UpdateLocalVariant by simp
next
  case (UpdateFlag env name val)
  let ?st2 = "if development env
      then st\<lparr>flagOverrides := (flagOverrides st)(name \<mapsto> val),
              persistantFlagStorage :=
                storage_set name (if val then ''true'' else ''false'') (persistantFlagStorage st)\<rparr>
      else st\<lparr>flagOverrides := (flagOverrides st)(name \<mapsto> val)\<rparr>"
  have "persisted_and_declared key v ?st2"
    using assms by (simp add: persisted_and_declared_def)
  then have "persisted_and_declared key v (snd (notifyListeners env ?st2))"
    using notifyListeners_unchanged persisted_and_declared_read by blast
  moreover have "snd (updateFlag env name val st) = snd (notifyListeners env ?st2)"
    by (simp add: updateFlag_def Let_def)
  ultimately show ?thesis using UpdateFlag by simp
next
  case (Subscribe l)
  then show ?thesis using assms by (simp add: persisted_and_declared_def subscribe_def)
next
  case (Unsubscribe l)
  then show ?thesis using assms by (simp add: persisted_and_declared_def unsubscribe_def)
next
  case (SetLocalOverrides cookies)
  then show ?thesis using assms by (simp add: persisted_and_declared_def setLocalOverrides_frame)
qed

lemma run_persisted_and_declared:
  "persisted_and_declared key v st \<Longrightarrow> \<forall>c \<in> set calls. \<not> rewrites_variant key c \<Longrightarrow>
   persisted_and_declared key v (run calls st)"
proof (induction calls arbitrary: st)
  case Nil
  then show ?case by (simp add: run_def)
next
  case (Cons c calls)
  have "persisted_and_declared key v (exec c st)"
    using Cons.prems by (simp add: exec_persisted_and_declared)
  then have "persisted_and_declared key v (run calls (exec c st))"
    using Cons.IH Cons.prems by simp
  then show ?case by (simp add: run_def)
qed

lemma getTestVariant_persisted:
  assumes "persisted_and_declared key v st" and "\<not> development env"
  shows "getTestVariant env key st = (Inr v, st)"
proof -
  have "map_of (tests (data st)) key \<noteq> None"
    using assms(1) by (simp add: persisted_and_declared_def map_of_eq_None_iff)
  then show ?thesis
    using assms by (auto simp: getTestVariant_def persisted_and_declared_def)
qed

text \<open>C10. \<open>updateLocalVariant key v\<close> writes \<open>v\<close> to the injected test storage under
  \<open>key\<close> in every environment mode. Hence, with a test storage injected and the test
  declared, every later resolution of the test outside development mode returns \<open>v\<close>
  (by the persisted-value branch: the override map is not consulted there) and changes
  nothing, after any sequence of calls that does not call \<open>updateLocalVariant\<close> on \<open>key\<close>
  again.\<close>

theorem updateLocalVariant_persists:
  assumes "persistantTestStorage st \<noteq> None"
    and "key \<in> fst ` set (tests (data st))"
    and "\<forall>c \<in> set calls. \<not> rewrites_variant key c"
    and "\<not> development env'"
  shows "storage_get key (persistantTestStorage (snd (updateLocalVariant env key v st))) = Some v \<and>
         getTestVariant env' key (run calls (snd (updateLocalVariant env key v st))) =
           (Inr v, run calls (snd (updateLocalVariant env key v st)))"
proof -
  let ?st0 = "st\<lparr>testOverrides := (testOverrides st)(key \<mapsto> v),
         persistantTestStorage := storage_set key v (persistantTestStorage st)\<rparr>"
  let ?st1 = "snd (updateLocalVariant env key v st)"
  have "persisted_and_declared key v ?st0"
    using assms(1,2) by (auto simp: persisted_and_declared_def storage_get_def storage_set_def)
  then have p1: "persisted_and_declared key v ?st1"
    using updateLocalVariant_unchanged persisted_and_declared_read by blast
  then have "persisted_and_declared key v (run calls ?st1)"
    using assms(3) by (rule run_persisted_and_declared)
  then have "getTestVariant env' key (run calls ?st1) = (Inr v, run calls ?st1)"
    using assms(4) by (rule getTestVariant_persisted)
  then show ?thesis using p1 by (simp add: persisted_and_declared_def)
qed

theorem updateLocalVariant_persists_witness:
  "storage_get ''test''
     (persistantTestStorage (snd (updateLocalVariant env_production ''test'' ''B'' example_abby_stored))) =
     Some ''B'' \<and>
   fst (getTestVariant env_production ''test''
     (run example_calls_variant (snd (updateLocalVariant env_production ''test'' ''B'' example_abby_stored)))) =
     Inr ''B''"
proof -
  have a: "persistantTestStorage example_abby_stored \<noteq> None" by (simp add: example_defs)
  have b: "''test'' \<in> fst ` set (tests (data example_abby_stored))" by (simp add: example_defs)
  have c: "\<forall>c \<in> set example_calls_variant. \<not> rewrites_variant ''test'' c"
    by (simp add: example_calls_variant_def)
  have d: "\<not> development env_production" by (simp add: example_defs)
  show ?thesis
    using updateLocalVariant_persists [OF a b c d, of env_production "''B''"] by simp
qed

end
